theory Spec2Isabelle
  imports Complex_Main
begin

section \<open>Fast global bounds of a scene graph\<close>

text \<open>
  The development embeds \<^verbatim>\<open>getFastGlobalBounds\<close> and
  \<^verbatim>\<open>_getGlobalBoundsRecursive\<close> of the scene-graph bounds module.
  JavaScript numbers are modelled as exact real numbers: rounding, NaN and the
  infinities of IEEE doubles are outside the model. Bounds and Matrix objects are
  mutable and shared by reference in the source, so they live in explicit stores
  indexed by addresses, and every operation passes the state along.
\<close>

subsection \<open>Matrices\<close>

text \<open>
  Modelled from the spec: the Matrix class is imported by the module and not part of it.
  A transform is the affine map \<open>(x, y) \<mapsto> (a x + c y + tx, b x + d y + ty)\<close>,
  with "an invertible copy/invert operation available on transforms".
\<close>

record matrix =
  ma :: real
  mb :: real
  mc :: real
  md :: real
  mtx :: real
  mty :: real

text \<open>The identity, the translations, and the image of a point.\<close>

definition identity_matrix :: matrix where
  "identity_matrix = \<lparr>ma = 1, mb = 0, mc = 0, md = 1, mtx = 0, mty = 0\<rparr>"

definition translation :: "real \<Rightarrow> real \<Rightarrow> matrix" where
  "translation dx dy = \<lparr>ma = 1, mb = 0, mc = 0, md = 1, mtx = dx, mty = dy\<rparr>"


definition transform_x :: "matrix \<Rightarrow> real \<Rightarrow> real \<Rightarrow> real" where
  "transform_x m x y = ma m * x + mc m * y + mtx m"

definition transform_y :: "matrix \<Rightarrow> real \<Rightarrow> real \<Rightarrow> real" where
  "transform_y m x y = mb m * x + md m * y + mty m"


text \<open>
  Modelled from the spec: the inverse of an affine map. For a singular matrix the
  source divides by zero and produces non-finite numbers, which the model does not
  represent; no theorem below relies on the value of \<open>invert_val\<close> there.
\<close>

definition invert_val :: "matrix \<Rightarrow> matrix" where
  "invert_val m =
     (let n = ma m * md m - mb m * mc m in
      \<lparr>ma = md m / n,
       mb = - mb m / n,
       mc = - mc m / n,
       md = ma m / n,
       mtx = (mc m * mty m - md m * mtx m) / n,
       mty = - (ma m * mty m - mb m * mtx m) / n\<rparr>)"

subsection \<open>The Bounds value type\<close>

text \<open>
  Modelled from the spec: the Bounds class is imported by the module and not part of it.
  A Bounds holds \<open>minX, minY, maxX, maxY\<close> "plus a derived validity state"; the
  invalid (empty) state is the value \<open>None\<close>, a valid accumulator is \<open>Some\<close> box.
\<close>

record box =
  minX :: real
  minY :: real
  maxX :: real
  maxY :: real

type_synonym bounds = "box option"

text \<open>Modelled from the spec: a rectangle-shaped value, given by its origin and size.\<close>

record rectangle =
  rect_x :: real
  rect_y :: real
  rect_width :: real
  rect_height :: real

definition mk_box :: "real \<Rightarrow> real \<Rightarrow> real \<Rightarrow> real \<Rightarrow> box" where
  "mk_box x0 y0 x1 y1 = \<lparr>minX = x0, minY = y0, maxX = x1, maxY = y1\<rparr>"

definition min4 :: "real \<Rightarrow> real \<Rightarrow> real \<Rightarrow> real \<Rightarrow> real" where
  "min4 p q r s = min (min p q) (min r s)"

definition max4 :: "real \<Rightarrow> real \<Rightarrow> real \<Rightarrow> real \<Rightarrow> real" where
  "max4 p q r s = max (max p q) (max r s)"

text \<open>
  Modelled from the spec: "the four frame corners are transformed first and the union
  uses the transformed extents", the axis-aligned box enclosing the four transformed
  corners of a frame.
\<close>

definition frame_aabb :: "matrix \<Rightarrow> real \<Rightarrow> real \<Rightarrow> real \<Rightarrow> real \<Rightarrow> box" where
  "frame_aabb m x0 y0 x1 y1 =
     \<lparr>minX = min4 (transform_x m x0 y0) (transform_x m x1 y0) (transform_x m x0 y1) (transform_x m x1 y1),
      minY = min4 (transform_y m x0 y0) (transform_y m x1 y0) (transform_y m x0 y1) (transform_y m x1 y1),
      maxX = max4 (transform_x m x0 y0) (transform_x m x1 y0) (transform_x m x0 y1) (transform_x m x1 y1),
      maxY = max4 (transform_y m x0 y0) (transform_y m x1 y0) (transform_y m x0 y1) (transform_y m x1 y1)\<rparr>"

text \<open>Modelled from the spec: the union of two boxes, "the componentwise min/max".\<close>

definition union_box :: "box \<Rightarrow> box \<Rightarrow> box" where
  "union_box p q =
     \<lparr>minX = min (minX p) (minX q), minY = min (minY p) (minY q),
      maxX = max (maxX p) (maxX q), maxY = max (maxY p) (maxY q)\<rparr>"

text \<open>
  Modelled from the spec: a union extends "an invalid accumulator to exactly the given
  frame (first union defines the box)" and a valid one by the union of the boxes.
\<close>

definition union_into :: "bounds \<Rightarrow> box \<Rightarrow> bounds" where
  "union_into acc f = (case acc of None \<Rightarrow> Some f | Some r \<Rightarrow> Some (union_box r f))"

text \<open>
  Modelled from the spec: \<^verbatim>\<open>clear()\<close> "resets to the invalid/empty state",
  \<^verbatim>\<open>set\<close> "unconditionally overwrites", and \<^verbatim>\<open>isValid\<close> tells whether the
  accumulator holds a box.
\<close>

definition clear_val :: bounds where
  "clear_val = None"

definition set_val :: "real \<Rightarrow> real \<Rightarrow> real \<Rightarrow> real \<Rightarrow> bounds" where
  "set_val x0 y0 x1 y1 = Some (mk_box x0 y0 x1 y1)"

definition isValid_val :: "bounds \<Rightarrow> bool" where
  "isValid_val acc \<longleftrightarrow> acc \<noteq> None"

text \<open>
  Modelled from the spec: \<^verbatim>\<open>addFrame\<close> "unions the given axis-aligned frame into the
  accumulator", transformed first when a transform is supplied; \<^verbatim>\<open>addRect\<close> is the
  "same as addFrame but sourced from a rectangle-shaped value"; \<^verbatim>\<open>addBounds\<close> "unions
  another Bounds' region, optionally transformed first" and "must treat an invalid other
  as a no-op"; \<^verbatim>\<open>applyMatrix\<close> "replaces the current box with the AABB of its own four
  corners transformed", "a no-op if currently invalid".
\<close>

definition addFrame_val ::
  "bounds \<Rightarrow> real \<Rightarrow> real \<Rightarrow> real \<Rightarrow> real \<Rightarrow> matrix option \<Rightarrow> bounds" where
  "addFrame_val acc x0 y0 x1 y1 mo =
     union_into acc (case mo of None \<Rightarrow> mk_box x0 y0 x1 y1 | Some m \<Rightarrow> frame_aabb m x0 y0 x1 y1)"

definition addRect_val :: "bounds \<Rightarrow> rectangle \<Rightarrow> matrix option \<Rightarrow> bounds" where
  "addRect_val acc r mo =
     addFrame_val acc (rect_x r) (rect_y r) (rect_x r + rect_width r) (rect_y r + rect_height r) mo"

definition addBounds_val :: "bounds \<Rightarrow> bounds \<Rightarrow> matrix option \<Rightarrow> bounds" where
  "addBounds_val acc other mo =
     (case other of
        None \<Rightarrow> acc
      | Some r \<Rightarrow> addFrame_val acc (minX r) (minY r) (maxX r) (maxY r) mo)"

definition applyMatrix_val :: "bounds \<Rightarrow> matrix \<Rightarrow> bounds" where
  "applyMatrix_val acc m =
     (case acc of
        None \<Rightarrow> None
      | Some r \<Rightarrow> Some (frame_aabb m (minX r) (minY r) (maxX r) (maxY r)))"

subsection \<open>Effects and container nodes\<close>

text \<open>
  An effect optionally exposes \<^verbatim>\<open>addBounds\<close>, which adjusts the Bounds it is given:
  a function from the accumulator's value before the call to its value after it. It
  reads and writes nothing else.
\<close>

datatype effect = Effect (effect_addBounds: "(bounds \<Rightarrow> bounds) option")

type_synonym addr = nat
type_synonym maddr = nat

text \<open>
  The fields of a Container that the module reads. Transforms are references to
  Matrix objects (addresses into the matrix store); \<open>view\<close> holds the bounds of the
  node's view when it has one; \<open>renderGroup_worldTransform\<close> stands for
  \<^verbatim>\<open>target.renderGroup.worldTransform\<close>.
\<close>

datatype container = Container
  (localVisibleRenderable: nat)
  (measurable: bool)
  (effects: "effect list")
  (isRenderGroupRoot: bool)
  (boundsArea: "rectangle option")
  (worldTransform: maddr)
  (view: "box option")
  (rgTransform: maddr)
  (renderGroup_worldTransform: maddr)
  (children: "container list")

subsection \<open>State: the Bounds store, the Matrix store and the pool\<close>

text \<open>
  Modelled from the spec: the scratch pool is "a free-list of reusable Bounds
  instances"; it hands out an instance on request (a pooled one when there is one,
  a newly allocated one otherwise) and accepts it back. \<open>hist\<close> is a history
  variable recording the calls of \<^verbatim>\<open>getBounds\<close> and \<^verbatim>\<open>returnBounds\<close> in order.
\<close>

datatype event = Borrow addr | Return addr

record state =
  bnds :: "addr \<Rightarrow> bounds"
  mats :: "maddr \<Rightarrow> matrix"
  pool :: "addr list"
  nxt :: addr
  hist :: "event list"

definition getBounds :: "state \<Rightarrow> addr \<times> state" where
  "getBounds s =
     (case pool s of
        [] \<Rightarrow> (nxt s, s\<lparr>bnds := (bnds s)(nxt s := None), nxt := Suc (nxt s),
                         hist := hist s @ [Borrow (nxt s)]\<rparr>)
      | p # ps \<Rightarrow> (p, s\<lparr>pool := ps, hist := hist s @ [Borrow p]\<rparr>))"

definition returnBounds :: "addr \<Rightarrow> state \<Rightarrow> state" where
  "returnBounds p s = s\<lparr>pool := p # pool s, hist := hist s @ [Return p]\<rparr>"

text \<open>
  Modelled from the spec: the methods of Bounds mutate their receiver, here the object
  at an address; a transform argument is a reference to a Matrix object and is read
  from the matrix store.
\<close>

definition upd_bounds :: "addr \<Rightarrow> bounds \<Rightarrow> state \<Rightarrow> state" where
  "upd_bounds p v s = s\<lparr>bnds := (bnds s)(p := v)\<rparr>"

definition matrix_arg :: "state \<Rightarrow> maddr option \<Rightarrow> matrix option" where
  "matrix_arg s mo = (case mo of None \<Rightarrow> None | Some m \<Rightarrow> Some (mats s m))"

definition clear :: "addr \<Rightarrow> state \<Rightarrow> state" where
  "clear p s = upd_bounds p clear_val s"

definition set_bounds :: "addr \<Rightarrow> real \<Rightarrow> real \<Rightarrow> real \<Rightarrow> real \<Rightarrow> state \<Rightarrow> state" where
  "set_bounds p x0 y0 x1 y1 s = upd_bounds p (set_val x0 y0 x1 y1) s"

definition isValid :: "addr \<Rightarrow> state \<Rightarrow> bool" where
  "isValid p s = isValid_val (bnds s p)"

definition addFrame ::
  "addr \<Rightarrow> real \<Rightarrow> real \<Rightarrow> real \<Rightarrow> real \<Rightarrow> maddr option \<Rightarrow> state \<Rightarrow> state" where
  "addFrame p x0 y0 x1 y1 mo s =
     upd_bounds p (addFrame_val (bnds s p) x0 y0 x1 y1 (matrix_arg s mo)) s"

definition addRect :: "addr \<Rightarrow> rectangle \<Rightarrow> maddr option \<Rightarrow> state \<Rightarrow> state" where
  "addRect p r mo s = upd_bounds p (addRect_val (bnds s p) r (matrix_arg s mo)) s"

definition addBounds :: "addr \<Rightarrow> addr \<Rightarrow> maddr option \<Rightarrow> state \<Rightarrow> state" where
  "addBounds p other mo s =
     upd_bounds p (addBounds_val (bnds s p) (bnds s other) (matrix_arg s mo)) s"

definition applyMatrix :: "addr \<Rightarrow> maddr \<Rightarrow> state \<Rightarrow> state" where
  "applyMatrix p m s = upd_bounds p (applyMatrix_val (bnds s p) (mats s m)) s"

text \<open>
  Modelled from the spec: the "copy/invert operation available on transforms".
  \<^verbatim>\<open>copyTo\<close> writes the receiver's values into its argument and returns the argument;
  \<^verbatim>\<open>invert\<close> inverts the receiver in place and returns it.
\<close>

definition copyTo :: "maddr \<Rightarrow> maddr \<Rightarrow> state \<Rightarrow> maddr \<times> state" where
  "copyTo src dst s = (dst, s\<lparr>mats := (mats s)(dst := mats s src)\<rparr>)"

definition invert :: "maddr \<Rightarrow> state \<Rightarrow> maddr \<times> state" where
  "invert m s = (m, s\<lparr>mats := (mats s)(m := invert_val (mats s m))\<rparr>)"

text \<open>The module-level scratch matrix \<^verbatim>\<open>const tempMatrix = new Matrix()\<close>.\<close>

definition tempMatrix :: maddr where
  "tempMatrix = 0"

subsection \<open>The recursive walk\<close>

text \<open>
  The loop over \<^verbatim>\<open>target.effects\<close> (lines 89 to 101), with the flag \<open>advanced\<close>.
\<close>

fun effects_loop :: "effect list \<Rightarrow> bool \<Rightarrow> maddr \<Rightarrow> addr \<Rightarrow> state \<Rightarrow> bool \<times> state" where
  "effects_loop [] advanced rgw localBounds s = (advanced, s)"
| "effects_loop (e # es) advanced rgw localBounds s =
     (case effect_addBounds e of
        None \<Rightarrow> effects_loop es advanced rgw localBounds s
      | Some f \<Rightarrow>
          (let s1 = (if \<not> advanced then applyMatrix localBounds rgw s else s);
               s2 = upd_bounds localBounds (f (bnds s1 localBounds)) s1
           in effects_loop es True rgw localBounds s2))"

text \<open>
  Lines 49 to 56: the working accumulator \<open>localBounds\<close> is the caller's, or a cleared
  one borrowed from the pool when the node roots a render group or has effects.
\<close>

definition local_bounds :: "bool \<Rightarrow> bool \<Rightarrow> addr \<Rightarrow> state \<Rightarrow> addr \<times> state" where
  "local_bounds rgroot manageEffects bounds s =
     (if rgroot \<or> manageEffects
      then (let (p, s') = getBounds s in (p, clear p s'))
      else (bounds, s))"

text \<open>Lines 87 to 110: the body of \<^verbatim>\<open>if (manageEffects)\<close>.\<close>

definition manage_effects ::
  "effect list \<Rightarrow> maddr \<Rightarrow> maddr \<Rightarrow> addr \<Rightarrow> addr \<Rightarrow> state \<Rightarrow> state" where
  "manage_effects effs rgw rgt bounds localBounds s2 =
     (let (advanced, s3) = effects_loop effs False rgw localBounds s2;
          s4 = (if advanced then
                  let (t, sa) = copyTo rgw tempMatrix s3;
                      (ti, sb) = invert t sa;
                      sc = applyMatrix localBounds ti sb
                  in addBounds bounds localBounds (Some rgt) sc
                else s3);
          s5 = addBounds bounds localBounds None s4
      in returnBounds localBounds s5)"

text \<open>
  \<^verbatim>\<open>_getGlobalBoundsRecursive\<close> (lines 39 to 117); \<open>children_loop\<close> is its loop over
  \<^verbatim>\<open>target.children\<close> (lines 79 to 82).
\<close>

fun getGlobalBoundsRecursive :: "container \<Rightarrow> addr \<Rightarrow> state \<Rightarrow> state"
  and children_loop :: "container list \<Rightarrow> addr \<Rightarrow> state \<Rightarrow> state" where
  "getGlobalBoundsRecursive (Container lvr meas effs rgroot area wt vw rgt rgw chs) bounds s =
     (if lvr \<noteq> 3 \<or> \<not> meas then s
      else
        let manageEffects = (effs \<noteq> []);
            (localBounds, s1) = local_bounds rgroot manageEffects bounds s;
            s2 = (case area of
                    Some r \<Rightarrow> addRect bounds r (Some wt) s1
                  | None \<Rightarrow>
                      children_loop chs localBounds
                        (case vw of
                           Some viewBounds \<Rightarrow>
                             addFrame localBounds (minX viewBounds) (minY viewBounds)
                               (maxX viewBounds) (maxY viewBounds) (Some rgt) s1
                         | None \<Rightarrow> s1))
        in
          if manageEffects then manage_effects effs rgw rgt bounds localBounds s2
          else if rgroot then
            returnBounds localBounds (addBounds bounds localBounds (Some rgt) s2)
          else s2)"
| "children_loop [] localBounds s = s"
| "children_loop (ch # chs) localBounds s =
     children_loop chs localBounds (getGlobalBoundsRecursive ch localBounds s)"

text \<open>\<^verbatim>\<open>getFastGlobalBounds\<close> (lines 20 to 37).\<close>

definition getFastGlobalBounds :: "container \<Rightarrow> addr \<Rightarrow> state \<Rightarrow> addr \<times> state" where
  "getFastGlobalBounds target bounds s =
     (let s1 = clear bounds s;
          s2 = getGlobalBoundsRecursive target bounds s1;
          s3 = (if \<not> isRenderGroupRoot target
                then applyMatrix bounds (renderGroup_worldTransform target) s2 else s2);
          s4 = (if \<not> isValid bounds s3 then set_bounds bounds 0 0 0 0 s3 else s3)
      in (bounds, s4))"

subsection \<open>Derived notions\<close>

text \<open>The guard of line 44: the node is skipped.\<close>

definition skipped :: "container \<Rightarrow> bool" where
  "skipped t \<longleftrightarrow> localVisibleRenderable t \<noteq> 3 \<or> \<not> measurable t"

text \<open>The condition of line 53 under which a scratch accumulator is borrowed.\<close>

definition needs_scratch :: "container \<Rightarrow> bool" where
  "needs_scratch t \<longleftrightarrow> isRenderGroupRoot t \<or> effects t \<noteq> []"

text \<open>
  Lines 58 to 83 as a function of the node: the state after the bounds-area override,
  or after the node's own view and its children, have been accumulated.
\<close>

definition content_phase :: "container \<Rightarrow> addr \<Rightarrow> addr \<Rightarrow> state \<Rightarrow> state" where
  "content_phase t bounds localBounds s1 =
     (case boundsArea t of
        Some r \<Rightarrow> addRect bounds r (Some (worldTransform t)) s1
      | None \<Rightarrow>
          children_loop (children t) localBounds
            (case view t of
               Some viewBounds \<Rightarrow>
                 addFrame localBounds (minX viewBounds) (minY viewBounds)
                   (maxX viewBounds) (maxY viewBounds) (Some (rgTransform t)) s1
             | None \<Rightarrow> s1))"

subsection \<open>Effect handling, as the specification words it\<close>

text \<open>The bounds-mutating operations of the effects that expose one, in list order.\<close>

primrec capable :: "effect list \<Rightarrow> (bounds \<Rightarrow> bounds) list" where
  "capable [] = []"
| "capable (e # es) =
     (case effect_addBounds e of None \<Rightarrow> capable es | Some f \<Rightarrow> f # capable es)"

text \<open>Invoking them one after the other against an accumulator.\<close>

definition run_effects :: "(bounds \<Rightarrow> bounds) list \<Rightarrow> bounds \<Rightarrow> bounds" where
  "run_effects fs v = fold (\<lambda>f acc. f acc) fs v"

text \<open>
  The effect handling of a node in the specification's words, on values: \<open>local\<close> is
  the node's scratch accumulator, \<open>acc\<close> the caller's, \<open>W\<close> the render group's world
  transform and \<open>T\<close> the node's local-to-render-group transform. With no capable
  effect, \<open>local\<close> is merged untransformed. Otherwise \<open>local\<close> is converted into world
  space once, the capable effects run in order, the result is converted back by the
  inverse of \<open>W\<close> and merged transformed by \<open>T\<close>, then merged a second time
  untransformed. The result is the final \<open>local\<close> and the final \<open>acc\<close>.
\<close>

definition effects_spec ::
  "(bounds \<Rightarrow> bounds) list \<Rightarrow> matrix \<Rightarrow> matrix \<Rightarrow> bounds \<Rightarrow> bounds \<Rightarrow> bounds \<times> bounds" where
  "effects_spec fs W T local acc =
     (if fs = [] then (local, addBounds_val acc local None)
      else
        let in_world = applyMatrix_val local W;
            adjusted = run_effects fs in_world;
            back = applyMatrix_val adjusted (invert_val W);
            merged = addBounds_val acc back (Some T)
        in (back, addBounds_val merged back None))"

subsection \<open>Replacing and removing parts of a tree\<close>

text \<open>A node with its children replaced, and with its view and children replaced.\<close>

definition set_children :: "container \<Rightarrow> container list \<Rightarrow> container" where
  "set_children t cs =
     Container (localVisibleRenderable t) (measurable t) (effects t) (isRenderGroupRoot t)
       (boundsArea t) (worldTransform t) (view t) (rgTransform t)
       (renderGroup_worldTransform t) cs"

definition with_content :: "container \<Rightarrow> box option \<Rightarrow> container list \<Rightarrow> container" where
  "with_content t v cs =
     Container (localVisibleRenderable t) (measurable t) (effects t) (isRenderGroupRoot t)
       (boundsArea t) (worldTransform t) v (rgTransform t)
       (renderGroup_worldTransform t) cs"

text \<open>
  A path is a list of child indices. \<open>node_at\<close> is the node at a path, \<open>remove_at\<close>
  the tree without the node at a (non-empty) path.
\<close>

fun node_at :: "nat list \<Rightarrow> container \<Rightarrow> container option" where
  "node_at [] t = Some t"
| "node_at (i # p) t =
     (if i < length (children t) then node_at p (children t ! i) else None)"

fun remove_at :: "nat list \<Rightarrow> container \<Rightarrow> container" where
  "remove_at [] t = t"
| "remove_at [i] t = set_children t (take i (children t) @ drop (Suc i) (children t))"
| "remove_at (i # p) t =
     (if i < length (children t)
      then set_children t ((children t)[i := remove_at p (children t ! i)])
      else t)"

subsection \<open>The pool discipline\<close>

text \<open>
  Replaying a history against the stack of outstanding borrows: a return must name the
  accumulator borrowed last. \<open>None\<close> is a violation of the stack discipline.
\<close>

fun lifo :: "event list \<Rightarrow> addr list \<Rightarrow> addr list option" where
  "lifo [] st = Some st"
| "lifo (Borrow p # es) st = lifo es (p # st)"
| "lifo (Return p # es) st =
     (case st of [] \<Rightarrow> None | q # st' \<Rightarrow> if p = q then lifo es st' else None)"

text \<open>Borrow events, and the events a computation adds to the history.\<close>

primrec is_borrow :: "event \<Rightarrow> bool" where
  "is_borrow (Borrow p) = True"
| "is_borrow (Return p) = False"

definition events :: "state \<Rightarrow> state \<Rightarrow> event list" where
  "events s s' = drop (length (hist s)) (hist s')"

text \<open>
  The number of nodes reached by the walk (not skipped, not below a bounds-area
  override) that root a render group or have effects.
\<close>

fun scratch_visits :: "container \<Rightarrow> nat" where
  "scratch_visits (Container lvr meas effs rgroot area wt vw rgt rgw chs) =
     (if lvr \<noteq> 3 \<or> \<not> meas then 0
      else (if rgroot \<or> effs \<noteq> [] then 1 else 0)
           + (case area of Some r \<Rightarrow> 0 | None \<Rightarrow> sum_list (map scratch_visits chs)))"

text \<open>A history is balanced when replaying it leaves any stack as it was.\<close>

definition balanced :: "event list \<Rightarrow> bool" where
  "balanced ev \<longleftrightarrow> (\<forall>st. lifo ev st = Some st)"

definition borrows :: "event list \<Rightarrow> nat" where
  "borrows ev = length (filter is_borrow ev)"

text \<open>A step from \<open>s\<close> to \<open>s'\<close> that adds a balanced history with \<open>n\<close> borrows.\<close>

definition walk_ok :: "state \<Rightarrow> state \<Rightarrow> nat \<Rightarrow> bool" where
  "walk_ok s s' n \<longleftrightarrow>
     (\<exists>ev. hist s' = hist s @ ev \<and> balanced ev \<and> borrows ev = n)"

subsection \<open>True bounds\<close>

text \<open>Containment of boxes, and of a possibly empty region in a result.\<close>

definition contains_box :: "box \<Rightarrow> box \<Rightarrow> bool" where
  "contains_box outer inner \<longleftrightarrow>
     minX outer \<le> minX inner \<and> minY outer \<le> minY inner
     \<and> maxX inner \<le> maxX outer \<and> maxY inner \<le> maxY outer"

definition covers :: "bounds \<Rightarrow> bounds \<Rightarrow> bool" where
  "covers res tru =
     (case tru of
        None \<Rightarrow> True
      | Some inner \<Rightarrow> (case res of None \<Rightarrow> False | Some outer \<Rightarrow> contains_box outer inner))"

text \<open>Boxes with \<open>minX \<le> maxX\<close> and \<open>minY \<le> maxY\<close>.\<close>

definition proper :: "box \<Rightarrow> bool" where
  "proper r \<longleftrightarrow> minX r \<le> maxX r \<and> minY r \<le> maxY r"

definition proper_acc :: "bounds \<Rightarrow> bool" where
  "proper_acc acc = (case acc of None \<Rightarrow> True | Some r \<Rightarrow> proper r)"








subsection \<open>The walk on values\<close>









subsection \<open>Where the result is never smaller\<close>





subsection \<open>Example scenes\<close>

text \<open>A visible leaf with a view, and a visible group without one; neither has effects.\<close>

definition leaf :: "box \<Rightarrow> maddr \<Rightarrow> maddr \<Rightarrow> maddr \<Rightarrow> container" where
  "leaf v wt rgt rgw = Container 3 True [] False None wt (Some v) rgt rgw []"

definition group :: "maddr \<Rightarrow> maddr \<Rightarrow> maddr \<Rightarrow> container list \<Rightarrow> container" where
  "group wt rgt rgw cs = Container 3 True [] False None wt None rgt rgw cs"

text \<open>An effect that pads a non-empty accumulator by a margin on all sides.\<close>

definition pad_effect :: "real \<Rightarrow> effect" where
  "pad_effect k =
     Effect (Some (\<lambda>acc. case acc of None \<Rightarrow> None
        | Some r \<Rightarrow> Some (mk_box (minX r - k) (minY r - k) (maxX r + k) (maxY r + k))))"

text \<open>An effect without the capability.\<close>

definition inert_effect :: effect where
  "inert_effect = Effect None"

text \<open>An effect that sets the accumulator it is given to the unit square.\<close>

definition unit_square_effect :: effect where
  "unit_square_effect = Effect (Some (\<lambda>acc. set_val 0 0 1 1))"

text \<open>
  A state with an empty pool, Bounds object 0 allocated, and the matrix store holding
  the identity everywhere but at addresses 2 and 3, which hold the translation by (5, 5).
\<close>

definition init_state :: state where
  "init_state =
     \<lparr>bnds = (\<lambda>_. None),
      mats = (\<lambda>_. identity_matrix)(2 := translation 5 5, 3 := translation 5 5),
      pool = [], nxt = 1, hist = []\<rparr>"

text \<open>
  Any state in which matrix 1 is the identity and matrix 2 the translation by (5, 5).
\<close>

definition with_scenario_transforms :: "state \<Rightarrow> state" where
  "with_scenario_transforms s =
     s\<lparr>mats := (mats s)(1 := identity_matrix, 2 := translation 5 5)\<rparr>"


text \<open>A leaf with a padding effect.\<close>

definition filtered_leaf :: container where
  "filtered_leaf =
     Container 3 True [pad_effect 1] False None 3 (Some (mk_box 0 0 10 10)) 1 2 []"

text \<open>The concrete scenario: a root with one child whose view is (0, 0, 10, 10).\<close>

definition scenario_child :: container where
  "scenario_child = leaf (mk_box 0 0 10 10) 3 1 2"

definition scenario_root :: container where
  "scenario_root = group 3 1 2 [scenario_child]"

text \<open>Nodes with no view, no children and no bounds-area override.\<close>

definition bare_effect_node :: container where
  "bare_effect_node = Container 3 True [unit_square_effect] False None 1 None 1 1 []"

definition bare_node :: container where
  "bare_node = Container 3 True [pad_effect 1] True None 1 None 1 1 []"

text \<open>A scene whose second child is hidden (only one visibility bit set).\<close>

definition hidden_subtree :: container where
  "hidden_subtree =
     Container 1 True [pad_effect 1] True None 3 (Some (mk_box 0 0 100 100)) 1 2
       [leaf (mk_box 0 0 50 50) 3 1 2]"

definition scene_with_hidden :: container where
  "scene_with_hidden =
     group 3 1 2 [leaf (mk_box 0 0 10 10) 3 1 2, hidden_subtree, leaf (mk_box 0 0 20 5) 3 1 2]"

text \<open>
  A node with four effects, the first and third without the capability, a view and a
  child.
\<close>

definition filtered_group :: container where
  "filtered_group =
     Container 3 True [inert_effect, pad_effect 1, inert_effect, pad_effect 2] False None 3
       (Some (mk_box 0 0 10 10)) 1 2 [leaf (mk_box 20 0 30 10) 3 1 2]"

text \<open>A render-group root whose only effect lacks the capability.\<close>

definition inert_group_root :: container where
  "inert_group_root =
     Container 3 True [inert_effect] True None 3 (Some (mk_box 0 0 10 10)) 3 2 []"

text \<open>A render-group root with a bounds-area override, a view and a child.\<close>

definition area_node :: container where
  "area_node =
     Container 3 True [] True (Some \<lparr>rect_x = 1, rect_y = 2, rect_width = 3, rect_height = 4\<rparr>) 3
       (Some (mk_box 0 0 100 100)) 1 2 [leaf (mk_box 0 0 50 50) 3 1 2]"

text \<open>Override nodes with effects.\<close>

definition area_fx_node :: container where
  "area_fx_node =
     Container 3 True [inert_effect] False
       (Some \<lparr>rect_x = 1, rect_y = 2, rect_width = 3, rect_height = 4\<rparr>) 3
       (Some (mk_box 0 0 100 100)) 1 2 [leaf (mk_box 0 0 50 50) 3 1 2]"

definition area_set_node :: container where
  "area_set_node =
     Container 3 True [unit_square_effect] False
       (Some \<lparr>rect_x = 1, rect_y = 2, rect_width = 3, rect_height = 4\<rparr>) 3
       (Some (mk_box 0 0 100 100)) 1 2 [leaf (mk_box 0 0 50 50) 3 1 2]"

text \<open>Scenes with nested scratch accumulators; the third child of the first is hidden.\<close>

definition nested_scene :: container where
  "nested_scene =
     Container 3 True [pad_effect 1] False None 3 None 1 2
       [Container 3 True [] True None 3 (Some (mk_box 0 0 10 10)) 1 2
          [Container 3 True [inert_effect] False None 3 (Some (mk_box 0 0 5 5)) 1 2 []],
        leaf (mk_box 0 0 1 1) 3 1 2,
        Container 0 True [pad_effect 1] True None 3 (Some (mk_box 0 0 9 9)) 1 2 [],
        Container 3 True [] True None 3 (Some (mk_box 0 0 10 10)) 1 2 []]"

definition two_level :: container where
  "two_level =
     Container 3 True [pad_effect 1] False None 3 None 1 2
       [Container 3 True [] True None 3 (Some (mk_box 0 0 10 10)) 1 2 []]"







section \<open>Properties\<close>

subsection \<open>Basic facts about the state operations\<close>

lemma upd_bounds_sel [simp]:
  "bnds (upd_bounds p v s) = (bnds s)(p := v)"
  "mats (upd_bounds p v s) = mats s"
  "pool (upd_bounds p v s) = pool s"
  "nxt (upd_bounds p v s) = nxt s"
  "hist (upd_bounds p v s) = hist s"
  by (simp_all add: upd_bounds_def)

lemma returnBounds_sel [simp]:
  "bnds (returnBounds p s) = bnds s"
  "mats (returnBounds p s) = mats s"
  "pool (returnBounds p s) = p # pool s"
  "nxt (returnBounds p s) = nxt s"
  "hist (returnBounds p s) = hist s @ [Return p]"
  by (simp_all add: returnBounds_def)

lemma getBounds_sel [simp]:
  "mats (snd (getBounds s)) = mats s"
  "hist (snd (getBounds s)) = hist s @ [Borrow (fst (getBounds s))]"
  by (simp_all add: getBounds_def split: list.splits)

lemmas bounds_ops =
  clear_def set_bounds_def addFrame_def addRect_def addBounds_def applyMatrix_def

lemmas value_ops =
  clear_val_def set_val_def isValid_val_def addFrame_val_def addRect_val_def addBounds_val_def
  applyMatrix_val_def union_into_def union_box_def frame_aabb_def mk_box_def min4_def max4_def
  transform_x_def transform_y_def matrix_arg_def identity_matrix_def translation_def
  invert_val_def

lemmas eval_defs =
  getFastGlobalBounds_def local_bounds_def manage_effects_def getBounds_def
  returnBounds_def copyTo_def invert_def isValid_def tempMatrix_def

text \<open>The recursive visit in terms of the node's fields.\<close>

lemma visit_unfold:
  "getGlobalBoundsRecursive t b s =
     (if skipped t then s
      else
        let (lb, s1) = local_bounds (isRenderGroupRoot t) (effects t \<noteq> []) b s;
            s2 = content_phase t b lb s1
        in
          if effects t \<noteq> [] then
            manage_effects (effects t) (renderGroup_worldTransform t) (rgTransform t) b lb s2
          else if isRenderGroupRoot t then
            returnBounds lb (addBounds b lb (Some (rgTransform t)) s2)
          else s2)"
  by (cases t) (simp add: skipped_def content_phase_def Let_def split: prod.splits option.splits)

subsection \<open>The matrix store\<close>

lemma mats_local_bounds [simp]:
  "mats (snd (local_bounds r e b s)) = mats s"
  by (simp add: local_bounds_def clear_def split: prod.splits) (metis getBounds_sel(1) snd_conv)

lemma mats_effects_loop [simp]:
  "mats (snd (effects_loop es adv rgw lb s)) = mats s"
  by (induction es arbitrary: adv s)
     (simp_all add: applyMatrix_def Let_def split: option.splits)

lemma mats_manage_effects:
  "m \<noteq> tempMatrix \<Longrightarrow> mats (manage_effects es rgw rgt b lb s) m = mats s m"
  using mats_effects_loop [of es False rgw lb s]
  by (cases "effects_loop es False rgw lb s")
     (simp add: manage_effects_def bounds_ops copyTo_def invert_def Let_def)

lemma mats_content:
  assumes "\<And>lb s. mats (children_loop (children t) lb s) m = mats s m"
  shows "mats (content_phase t b lb s) m = mats s m"
  using assms by (simp add: content_phase_def bounds_ops split: option.splits)

lemma mats_visit_step:
  assumes "m \<noteq> tempMatrix"
    and "\<And>lb s. mats (children_loop (children t) lb s) m = mats s m"
  shows "mats (getGlobalBoundsRecursive t b s) m = mats s m"
proof -
  obtain lb s1 where l: "local_bounds (isRenderGroupRoot t) (effects t \<noteq> []) b s = (lb, s1)"
    by (cases "local_bounds (isRenderGroupRoot t) (effects t \<noteq> []) b s")
  have "mats s1 = mats s"
    using mats_local_bounds [of "isRenderGroupRoot t" "effects t \<noteq> []" b s] l by simp
  then show ?thesis
    using assms l
    by (simp add: visit_unfold mats_manage_effects mats_content bounds_ops Let_def)
qed

lemma mats_children_step:
  assumes "\<And>c b s. c \<in> set cs \<Longrightarrow> mats (getGlobalBoundsRecursive c b s) m = mats s m"
  shows "mats (children_loop cs lb s) m = mats s m"
  using assms by (induction cs arbitrary: s) simp_all

lemma mats_frame:
  "m \<noteq> tempMatrix \<Longrightarrow> mats (getGlobalBoundsRecursive t b s) m = mats s m"
proof (induction t arbitrary: b s)
  case (Container lvr meas effs rgroot area wt vw rgt rgw chs)
  show ?case
    by (rule mats_visit_step [OF Container.prems]) (simp add: mats_children_step Container)
qed

text \<open>
  C10. The bounds computation leaves every Matrix object other than the module's own
  scratch matrix as it was: the inversion in the effect handling acts on the copy held
  in \<open>tempMatrix\<close>. In particular \<^verbatim>\<open>target.renderGroup.worldTransform\<close>, which is
  not the scratch matrix, holds the same values afterwards.
\<close>

theorem scene_transforms_unchanged:
  "m \<noteq> tempMatrix \<Longrightarrow> mats (snd (getFastGlobalBounds target out s)) m = mats s m"
  by (simp add: getFastGlobalBounds_def Let_def bounds_ops mats_frame)

text \<open>
  An instance: a leaf with a padding effect, for which the inversion does take place;
  the render group's world transform lives at address 2.
\<close>

theorem scene_transforms_unchanged_witness:
  "(2::nat) \<noteq> tempMatrix
   \<and> mats (snd (getFastGlobalBounds filtered_leaf 0 init_state)) 2 = translation 5 5"
  using scene_transforms_unchanged [of 2 filtered_leaf 0 init_state]
  by (simp add: tempMatrix_def init_state_def)

subsection \<open>The top level\<close>

text \<open>
  C3. In the concrete scenario (root R not a render-group root, visible, without view,
  effects or override; one visible, measurable child with view (0, 0, 10, 10) and the
  identity as local-to-render-group transform; R's render-group world transform the
  translation by (5, 5)) the result is (5, 5, 15, 15), whatever the output accumulator
  held before and whatever the pool contains.
\<close>

theorem concrete_scenario:
  "fst (getFastGlobalBounds scenario_root out (with_scenario_transforms s)) = out
   \<and> bnds (snd (getFastGlobalBounds scenario_root out (with_scenario_transforms s))) out
       = Some (mk_box 5 5 15 15)"
  apply (simp add: scenario_root_def scenario_child_def group_def leaf_def
      with_scenario_transforms_def eval_defs bounds_ops Let_def)
  apply (simp add: value_ops)
  done

text \<open>
  C4. The result is the state left by the recursive walk with the output accumulator
  replaced: when the target roots a render group the accumulated bounds are taken as
  they are, otherwise the target's render-group world transform is applied to them,
  once, after the walk; an accumulator that is still invalid becomes (0, 0, 0, 0).
\<close>

theorem top_level_transform:
  "getFastGlobalBounds target out s =
     (let s2 = getGlobalBoundsRecursive target out (clear out s);
          acc = (if isRenderGroupRoot target then bnds s2 out
                 else applyMatrix_val (bnds s2 out) (mats s2 (renderGroup_worldTransform target)))
      in (out, upd_bounds out (if isValid_val acc then acc else set_val 0 0 0 0) s2))"
  by (simp add: getFastGlobalBounds_def Let_def isValid_def bounds_ops upd_bounds_def)

subsection \<open>Effects on an accumulator\<close>

lemma run_effects_simps [simp]:
  "run_effects [] v = v"
  "run_effects (f # fs) v = run_effects fs (f v)"
  by (simp_all add: run_effects_def)

text \<open>The loop with its lazily set flag, in closed form.\<close>

lemma effects_loop_char:
  "effects_loop es adv rgw lb s =
     (adv \<or> capable es \<noteq> [],
      upd_bounds lb
        (if capable es = [] then bnds s lb
         else run_effects (capable es)
                (if adv then bnds s lb else applyMatrix_val (bnds s lb) (mats s rgw))) s)"
proof (induction es arbitrary: adv s)
  case Nil
  show ?case by (simp add: upd_bounds_def)
next
  case (Cons e es)
  show ?case
  proof (cases "effect_addBounds e")
    case None
    then show ?thesis by (simp add: Cons)
  next
    case (Some f)
    then show ?thesis
      by (simp add: Cons Let_def applyMatrix_def upd_bounds_def)
  qed
qed

lemma run_effects_None:
  "(\<And>f. f \<in> set fs \<Longrightarrow> f None = None) \<Longrightarrow> run_effects fs None = None"
proof (induction fs)
  case Nil
  show ?case by simp
next
  case (Cons f fs)
  have hd: "f None = None" using Cons.prems by simp
  have tl: "run_effects fs None = None" using Cons by simp
  show ?case by (simp add: hd tl)
qed

lemma capable_set:
  "f \<in> set (capable es) \<longleftrightarrow> (\<exists>e\<in>set es. effect_addBounds e = Some f)"
  by (induction es) (auto split: option.splits)

subsection \<open>The empty default\<close>

lemma local_bounds_None:
  assumes "bnds s out = None" and "local_bounds r e out s = (lb, s1)"
  shows "bnds s1 lb = None \<and> bnds s1 out = None"
  using assms
  by (auto simp add: local_bounds_def getBounds_def clear_def clear_val_def
      split: if_splits list.splits prod.splits)

lemma manage_effects_None:
  assumes "bnds s lb = None" and "bnds s out = None"
    and "\<And>f. f \<in> set (capable es) \<Longrightarrow> f None = None"
  shows "bnds (manage_effects es rgw rgt out lb s) out = None"
  using assms run_effects_None [of "capable es"]
  by (simp add: manage_effects_def effects_loop_char bounds_ops copyTo_def invert_def Let_def
      applyMatrix_val_def addBounds_val_def)

lemma visit_bare_None:
  assumes "view t = None" "children t = []" "boundsArea t = None"
    and "\<And>f. f \<in> set (capable (effects t)) \<Longrightarrow> f None = None"
    and "bnds s out = None"
  shows "bnds (getGlobalBoundsRecursive t out s) out = None"
proof -
  obtain lb s1 where l: "local_bounds (isRenderGroupRoot t) (effects t \<noteq> []) out s = (lb, s1)"
    by (cases "local_bounds (isRenderGroupRoot t) (effects t \<noteq> []) out s")
  have n: "bnds s1 lb = None \<and> bnds s1 out = None"
    using local_bounds_None [OF assms(5) l] .
  have c: "content_phase t out lb s1 = s1"
    using assms(1-3) by (simp add: content_phase_def)
  show ?thesis
    using assms(4,5) l n c
    by (simp add: visit_unfold manage_effects_None bounds_ops addBounds_val_def)
qed

text \<open>
  C7, as stated, fails for a node whose effect makes an empty accumulator non-empty:
  the node has no view, no children and no override, yet the result is the unit square.
\<close>

theorem empty_default_counterexample:
  "view bare_effect_node = None \<and> children bare_effect_node = []
   \<and> boundsArea bare_effect_node = None
   \<and> bnds (snd (getFastGlobalBounds bare_effect_node 0 init_state)) 0 = Some (mk_box 0 0 1 1)
   \<and> Some (mk_box 0 0 1 1) \<noteq> set_val 0 0 0 0"
  apply (simp add: bare_effect_node_def unit_square_effect_def eval_defs bounds_ops Let_def)
  apply (simp add: init_state_def)
  apply (simp add: value_ops)
  done

text \<open>
  C7, amended. The caller never receives an invalid result; whenever the walk leaves
  the accumulator invalid the result is (0, 0, 0, 0); and this is the case for every
  target with no view, no children and no bounds-area override whose bounds-mutating
  effects, if any, leave an empty accumulator empty.
\<close>

theorem empty_default:
  "isValid out (snd (getFastGlobalBounds t out s))
   \<and> (\<not> isValid out (getGlobalBoundsRecursive t out (clear out s))
        \<longrightarrow> bnds (snd (getFastGlobalBounds t out s)) out = set_val 0 0 0 0)
   \<and> (view t = None \<and> children t = [] \<and> boundsArea t = None
        \<and> (\<forall>e\<in>set (effects t). \<forall>f. effect_addBounds e = Some f \<longrightarrow> f None = None)
        \<longrightarrow> bnds (snd (getFastGlobalBounds t out s)) out = set_val 0 0 0 0)"
proof (intro conjI impI)
  show "isValid out (snd (getFastGlobalBounds t out s))"
    by (simp add: getFastGlobalBounds_def Let_def isValid_def isValid_val_def set_bounds_def
        set_val_def)
next
  assume "\<not> isValid out (getGlobalBoundsRecursive t out (clear out s))"
  then show "bnds (snd (getFastGlobalBounds t out s)) out = set_val 0 0 0 0"
    by (simp add: getFastGlobalBounds_def Let_def isValid_def isValid_val_def bounds_ops
        applyMatrix_val_def)
next
  assume a: "view t = None \<and> children t = [] \<and> boundsArea t = None
        \<and> (\<forall>e\<in>set (effects t). \<forall>f. effect_addBounds e = Some f \<longrightarrow> f None = None)"
  have "bnds (getGlobalBoundsRecursive t out (clear out s)) out = None"
    using a by (intro visit_bare_None) (auto simp add: capable_set clear_def clear_val_def)
  then show "bnds (snd (getFastGlobalBounds t out s)) out = set_val 0 0 0 0"
    by (simp add: getFastGlobalBounds_def Let_def isValid_def isValid_val_def bounds_ops
        applyMatrix_val_def)
qed

text \<open>
  An instance: a render-group root with a padding effect and nothing to draw. The walk
  leaves the accumulator invalid and the result is (0, 0, 0, 0).
\<close>

theorem empty_default_witness:
  "view bare_node = None \<and> children bare_node = [] \<and> boundsArea bare_node = None
   \<and> effects bare_node = [pad_effect 1]
   \<and> (case effect_addBounds (pad_effect 1) of None \<Rightarrow> True | Some f \<Rightarrow> f None = None)
   \<and> \<not> isValid 0 (getGlobalBoundsRecursive bare_node 0 (clear 0 init_state))
   \<and> isValid 0 (snd (getFastGlobalBounds bare_node 0 init_state))
   \<and> bnds (snd (getFastGlobalBounds bare_node 0 init_state)) 0 = Some (mk_box 0 0 0 0)"
  using empty_default [of 0 bare_node init_state]
  apply (simp add: bare_node_def pad_effect_def eval_defs bounds_ops Let_def)
  apply (simp add: init_state_def)
  apply (simp add: value_ops)
  done

subsection \<open>Skipped nodes\<close>

lemma visit_skipped: "skipped c \<Longrightarrow> getGlobalBoundsRecursive c b s = s"
  by (simp add: visit_unfold)

lemma children_loop_append:
  "children_loop (xs @ ys) lb s = children_loop ys lb (children_loop xs lb s)"
  by (induction xs arbitrary: s) simp_all

lemma children_loop_remove:
  assumes "i < length cs" and "skipped (cs ! i)"
  shows "children_loop (take i cs @ drop (Suc i) cs) lb s = children_loop cs lb s"
proof -
  have "cs = take i cs @ cs ! i # drop (Suc i) cs"
    using assms(1) by (rule id_take_nth_drop)
  then have "children_loop cs lb s =
      children_loop (cs ! i # drop (Suc i) cs) lb (children_loop (take i cs) lb s)"
    using children_loop_append [of "take i cs" "cs ! i # drop (Suc i) cs" lb s] by simp
  then show ?thesis
    using assms(2) by (simp add: children_loop_append visit_skipped)
qed

lemma children_loop_update:
  assumes "i < length cs"
    and "\<And>b s. getGlobalBoundsRecursive c' b s = getGlobalBoundsRecursive (cs ! i) b s"
  shows "children_loop (cs[i := c']) lb s = children_loop cs lb s"
  using assms
proof (induction cs arbitrary: i s)
  case Nil
  then show ?case by simp
next
  case (Cons c cs)
  show ?case
  proof (cases i)
    case 0
    then show ?thesis using Cons.prems by simp
  next
    case (Suc j)
    then show ?thesis using Cons.prems Cons.IH [of j] by simp
  qed
qed

lemma set_children_sel [simp]:
  "localVisibleRenderable (set_children t cs) = localVisibleRenderable t"
  "measurable (set_children t cs) = measurable t"
  "effects (set_children t cs) = effects t"
  "isRenderGroupRoot (set_children t cs) = isRenderGroupRoot t"
  "boundsArea (set_children t cs) = boundsArea t"
  "worldTransform (set_children t cs) = worldTransform t"
  "view (set_children t cs) = view t"
  "rgTransform (set_children t cs) = rgTransform t"
  "renderGroup_worldTransform (set_children t cs) = renderGroup_worldTransform t"
  "children (set_children t cs) = cs"
  by (simp_all add: set_children_def)

lemma visit_set_children:
  assumes "\<And>lb s. children_loop cs lb s = children_loop (children t) lb s"
  shows "getGlobalBoundsRecursive (set_children t cs) b s = getGlobalBoundsRecursive t b s"
  using assms
  by (simp add: visit_unfold content_phase_def skipped_def Let_def
      split: prod.splits option.splits)

lemma remove_at_sel [simp]:
  "isRenderGroupRoot (remove_at p t) = isRenderGroupRoot t"
  "renderGroup_worldTransform (remove_at p t) = renderGroup_worldTransform t"
  by (induction p t rule: remove_at.induct) simp_all

lemma visit_remove_at:
  "node_at p t = Some c \<Longrightarrow> p \<noteq> [] \<Longrightarrow> skipped c \<Longrightarrow>
   getGlobalBoundsRecursive (remove_at p t) b s = getGlobalBoundsRecursive t b s"
proof (induction p t arbitrary: b s rule: remove_at.induct)
  case (1 t)
  then show ?case by simp
next
  case (2 i t)
  then show ?case
    by (auto simp add: visit_set_children children_loop_remove split: if_splits)
next
  case (3 i j p t)
  show ?case
  proof (cases "i < length (children t)")
    case True
    have "\<And>b s. getGlobalBoundsRecursive (remove_at (j # p) (children t ! i)) b s
        = getGlobalBoundsRecursive (children t ! i) b s"
      using 3 True by simp
    then show ?thesis
      using True by (simp add: visit_set_children children_loop_update)
  next
    case False
    then show ?thesis by simp
  qed
qed

text \<open>
  C5. A node whose visibility flag is not 3, or that is not measurable, is skipped: the
  visit returns the state it was given (no accumulator is touched, nothing is borrowed,
  no child is visited), and the result of the whole computation is the result on the
  tree with that node removed.
\<close>

theorem skipped_node_excluded:
  assumes "skipped c"
  shows "getGlobalBoundsRecursive c b s = s
    \<and> (node_at p t = Some c \<and> p \<noteq> []
         \<longrightarrow> getFastGlobalBounds (remove_at p t) out s' = getFastGlobalBounds t out s')"
  using assms
  by (simp add: visit_skipped getFastGlobalBounds_def visit_remove_at Let_def)

text \<open>An instance: the hidden second child of a group, with a view, an effect and a child.\<close>

theorem skipped_node_excluded_witness:
  "skipped hidden_subtree
   \<and> node_at [1] scene_with_hidden = Some hidden_subtree
   \<and> remove_at [1] scene_with_hidden
       = group 3 1 2 [leaf (mk_box 0 0 10 10) 3 1 2, leaf (mk_box 0 0 20 5) 3 1 2]
   \<and> getGlobalBoundsRecursive hidden_subtree 0 init_state = init_state
   \<and> getFastGlobalBounds (remove_at [1] scene_with_hidden) 0 init_state
       = getFastGlobalBounds scene_with_hidden 0 init_state"
proof -
  have sk: "skipped hidden_subtree"
    by (simp add: skipped_def hidden_subtree_def)
  have at: "node_at [1] scene_with_hidden = Some hidden_subtree"
    by (simp add: scene_with_hidden_def group_def)
  have rm: "remove_at [1] scene_with_hidden
       = group 3 1 2 [leaf (mk_box 0 0 10 10) 3 1 2, leaf (mk_box 0 0 20 5) 3 1 2]"
    by (simp add: scene_with_hidden_def group_def set_children_def)
  show ?thesis
    using skipped_node_excluded [OF sk, of 0 init_state "[1]" scene_with_hidden 0 init_state]
      sk at rm by simp
qed

subsection \<open>The scratch accumulator\<close>

lemma getBounds_fresh:
  "b < nxt s \<Longrightarrow> b \<notin> set (pool s) \<Longrightarrow> fst (getBounds s) \<noteq> b"
  by (auto simp add: getBounds_def split: list.splits)

lemma local_bounds_scratch:
  assumes "r \<or> e" and "local_bounds r e b s = (lb, s1)"
  shows "lb = fst (getBounds s) \<and> bnds s1 lb = None \<and> mats s1 = mats s
    \<and> (\<forall>a. a \<noteq> lb \<longrightarrow> bnds s1 a = bnds s a)"
  using assms
  by (auto simp add: local_bounds_def getBounds_def clear_def clear_val_def
      split: list.splits prod.splits)

lemma local_bounds_plain:
  "\<not> r \<Longrightarrow> \<not> e \<Longrightarrow> local_bounds r e b s = (b, s)"
  by (simp add: local_bounds_def)

subsection \<open>Effect handling\<close>

lemma manage_effects_bnds:
  assumes "lb \<noteq> b" and "rgt \<noteq> tempMatrix"
  shows "(bnds (manage_effects es rgw rgt b lb s) lb, bnds (manage_effects es rgw rgt b lb s) b)
     = effects_spec (capable es) (mats s rgw) (mats s rgt) (bnds s lb) (bnds s b)"
    and "a \<noteq> b \<Longrightarrow> a \<noteq> lb \<Longrightarrow> bnds (manage_effects es rgw rgt b lb s) a = bnds s a"
  using assms
  by (simp_all add: manage_effects_def effects_loop_char effects_spec_def bounds_ops copyTo_def
      invert_def Let_def matrix_arg_def)

lemma manage_effects_inert:
  assumes "capable es = []"
  shows "manage_effects es rgw rgt b lb s = returnBounds lb (addBounds b lb None s)"
  using assms
  by (simp add: manage_effects_def effects_loop_char Let_def upd_bounds_def)

text \<open>
  C2. For a visited (not skipped) node with effects, whose caller's accumulator is in
  use (allocated and not in the pool): the working accumulator is a cleared scratch
  borrowed from the pool, distinct from the caller's, and after the visit the scratch and
  the caller's accumulator hold what the specification's effect handling computes from
  their contents after the node's own content was accumulated. Effects without the
  capability do not appear in \<open>capable\<close> and do not stop later ones.
\<close>

theorem effect_handling:
  assumes "\<not> skipped t" and "effects t \<noteq> []"
    and "b < nxt s" and "b \<notin> set (pool s)"
    and "rgTransform t \<noteq> tempMatrix"
  shows
    "(let (lb, s1) = local_bounds (isRenderGroupRoot t) (effects t \<noteq> []) b s;
          s2 = content_phase t b lb s1;
          s' = getGlobalBoundsRecursive t b s
      in lb \<noteq> b \<and> lb = fst (getBounds s) \<and> bnds s1 lb = None
         \<and> (bnds s' lb, bnds s' b)
             = effects_spec (capable (effects t)) (mats s2 (renderGroup_worldTransform t))
                 (mats s2 (rgTransform t)) (bnds s2 lb) (bnds s2 b))"
proof -
  obtain lb s1 where l: "local_bounds (isRenderGroupRoot t) (effects t \<noteq> []) b s = (lb, s1)"
    by (cases "local_bounds (isRenderGroupRoot t) (effects t \<noteq> []) b s")
  have sc1: "lb = fst (getBounds s)" and sc2: "bnds s1 lb = None"
    using local_bounds_scratch [OF _ l] assms(2) by blast+
  have ne: "lb \<noteq> b"
    using sc1 getBounds_fresh [OF assms(3,4)] by simp
  have "(bnds (getGlobalBoundsRecursive t b s) lb, bnds (getGlobalBoundsRecursive t b s) b)
      = effects_spec (capable (effects t))
          (mats (content_phase t b lb s1) (renderGroup_worldTransform t))
          (mats (content_phase t b lb s1) (rgTransform t))
          (bnds (content_phase t b lb s1) lb) (bnds (content_phase t b lb s1) b)"
    using assms(1,2) l manage_effects_bnds(1) [OF ne assms(5)]
    by (simp add: visit_unfold Let_def)
  then show ?thesis
    using l sc1 [symmetric] sc2 ne by (simp add: Let_def)
qed

text \<open>
  An instance with four effects, the first and third without the capability: both
  padding effects run, in world space.
\<close>

theorem effect_handling_witness:
  "\<not> skipped filtered_group \<and> effects filtered_group \<noteq> []
   \<and> 0 < nxt init_state \<and> 0 \<notin> set (pool init_state)
   \<and> rgTransform filtered_group \<noteq> tempMatrix
   \<and> length (capable (effects filtered_group)) = 2
   \<and> bnds (getGlobalBoundsRecursive filtered_group 0 init_state) 0
       = Some (mk_box (-3) (-3) 33 13)"
  using effect_handling [of filtered_group 0 init_state]
  apply (simp add: filtered_group_def inert_effect_def pad_effect_def leaf_def skipped_def
      content_phase_def effects_spec_def eval_defs bounds_ops Let_def)
  apply (simp add: init_state_def)
  apply (simp add: value_ops)
  done

lemma capable_inert:
  "\<forall>e\<in>set es. effect_addBounds e = None \<Longrightarrow> capable es = []"
  by (induction es) simp_all

text \<open>
  C9. A visited node that roots a render group and has effects, none of them with the
  capability: all that happens after the node's content has been accumulated into the
  scratch is the untransformed merge into the caller's accumulator and the return of the
  scratch; the merge with the node's local-to-render-group transform of the
  render-group-root branch does not take place.
\<close>

theorem inert_effects_on_group_root:
  assumes "\<not> skipped t" and "isRenderGroupRoot t" and "effects t \<noteq> []"
    and "\<forall>e\<in>set (effects t). effect_addBounds e = None"
    and "b < nxt s" and "b \<notin> set (pool s)"
  shows
    "(let (lb, s1) = local_bounds (isRenderGroupRoot t) (effects t \<noteq> []) b s;
          s2 = content_phase t b lb s1;
          s' = getGlobalBoundsRecursive t b s
      in lb \<noteq> b
         \<and> s' = returnBounds lb (addBounds b lb None s2)
         \<and> bnds s' b = addBounds_val (bnds s2 b) (bnds s2 lb) None)"
proof -
  obtain lb s1 where l: "local_bounds (isRenderGroupRoot t) (effects t \<noteq> []) b s = (lb, s1)"
    by (cases "local_bounds (isRenderGroupRoot t) (effects t \<noteq> []) b s")
  have sc1: "lb = fst (getBounds s)"
    using local_bounds_scratch [OF _ l] assms(2) by blast
  have ne: "lb \<noteq> b"
    using sc1 getBounds_fresh [OF assms(5,6)] by simp
  have inert: "capable (effects t) = []"
    using assms(4) by (rule capable_inert)
  have "getGlobalBoundsRecursive t b s
      = returnBounds lb (addBounds b lb None (content_phase t b lb s1))"
    using assms(1,3) l by (simp add: visit_unfold Let_def manage_effects_inert [OF inert])
  then show ?thesis
    using l ne by (simp add: Let_def addBounds_def matrix_arg_def)
qed

text \<open>
  An instance: the node's view (0, 0, 10, 10) enters the scratch under the node's
  transform (the translation by (5, 5)) and is merged as it is, not translated again.
\<close>

theorem inert_effects_on_group_root_witness:
  "\<not> skipped inert_group_root \<and> isRenderGroupRoot inert_group_root
   \<and> effects inert_group_root \<noteq> []
   \<and> effects inert_group_root = [inert_effect] \<and> effect_addBounds inert_effect = None
   \<and> 0 < nxt init_state \<and> 0 \<notin> set (pool init_state)
   \<and> bnds (getGlobalBoundsRecursive inert_group_root 0 init_state) 0
       = Some (mk_box 5 5 15 15)"
  using inert_effects_on_group_root [of inert_group_root 0 init_state]
  apply (simp add: inert_group_root_def inert_effect_def skipped_def
      content_phase_def eval_defs bounds_ops Let_def)
  apply (simp add: init_state_def)
  apply (simp add: value_ops)
  done

subsection \<open>The bounds-area override\<close>

lemma with_content_sel [simp]:
  "localVisibleRenderable (with_content t v cs) = localVisibleRenderable t"
  "measurable (with_content t v cs) = measurable t"
  "effects (with_content t v cs) = effects t"
  "isRenderGroupRoot (with_content t v cs) = isRenderGroupRoot t"
  "boundsArea (with_content t v cs) = boundsArea t"
  "worldTransform (with_content t v cs) = worldTransform t"
  "view (with_content t v cs) = v"
  "rgTransform (with_content t v cs) = rgTransform t"
  "renderGroup_worldTransform (with_content t v cs) = renderGroup_worldTransform t"
  "children (with_content t v cs) = cs"
  by (simp_all add: with_content_def)

lemma visit_override_content:
  assumes "boundsArea t = Some r"
  shows "getGlobalBoundsRecursive (with_content t v cs) b s = getGlobalBoundsRecursive t b s"
  using assms
  by (simp add: visit_unfold content_phase_def skipped_def Let_def split: prod.splits)

text \<open>Unions only grow an accumulator.\<close>

lemma covers_refl: "covers acc acc"
  by (simp add: covers_def contains_box_def split: option.splits)

lemma covers_trans: "covers p q \<Longrightarrow> covers q r \<Longrightarrow> covers p r"
  by (auto simp add: covers_def contains_box_def split: option.splits)

lemma covers_union_into: "covers (union_into acc f) acc" "covers (union_into acc f) (Some f)"
  by (simp_all add: covers_def union_into_def contains_box_def union_box_def split: option.splits)

lemma covers_addFrame_val: "covers (addFrame_val acc x0 y0 x1 y1 mo) acc"
  by (simp add: addFrame_val_def covers_union_into)

lemma covers_addBounds_val: "covers (addBounds_val acc other mo) acc"
  by (simp add: addBounds_val_def covers_addFrame_val covers_refl split: option.splits)

lemma covers_effects_spec: "covers (snd (effects_spec fs W T local acc)) acc"
  by (auto simp add: effects_spec_def Let_def intro: covers_addBounds_val covers_trans)

lemma covers_addRect_val:
  "covers (addRect_val acc r (Some m))
     (Some (frame_aabb m (rect_x r) (rect_y r) (rect_x r + rect_width r)
        (rect_y r + rect_height r)))"
  by (simp add: addRect_val_def addFrame_val_def covers_union_into)

text \<open>
  C6. For a visited node with a bounds-area override (caller's accumulator in use, the
  node's transform not the module's scratch matrix): after the visit the caller's
  accumulator is the union of its previous content with the override rectangle
  transformed by the node's world transform, to which the effect handling, if the node
  has capable effects, is applied with an empty scratch accumulator; so the caller's
  accumulator contains the transformed override and what it held before. The union is
  made on the caller's accumulator in the content step; a scratch accumulator, when
  there is one, is a different object and is empty after that step; and the node's view
  and children play no part in the resulting state.
\<close>

theorem bounds_area_override:
  assumes "\<not> skipped t" and "boundsArea t = Some r"
    and "b < nxt s" and "b \<notin> set (pool s)"
    and "rgTransform t \<noteq> tempMatrix"
  shows
    "(let area = addRect_val (bnds s b) r (Some (mats s (worldTransform t)));
          s' = getGlobalBoundsRecursive t b s;
          fs = capable (effects t);
          (lb, s1) = local_bounds (isRenderGroupRoot t) (effects t \<noteq> []) b s;
          s2 = content_phase t b lb s1
      in bnds s' b =
           (if fs = [] then area
            else snd (effects_spec fs (mats s (renderGroup_worldTransform t))
                        (mats s (rgTransform t)) None area))
         \<and> covers (bnds s' b)
              (Some (frame_aabb (mats s (worldTransform t)) (rect_x r) (rect_y r)
                 (rect_x r + rect_width r) (rect_y r + rect_height r)))
         \<and> covers (bnds s' b) (bnds s b)
         \<and> getGlobalBoundsRecursive (with_content t v cs) b s = s'
         \<and> s2 = addRect b r (Some (worldTransform t)) s1
         \<and> bnds s2 b = area
         \<and> (needs_scratch t \<longrightarrow> lb \<noteq> b \<and> bnds s2 lb = None)
         \<and> (effects t = [] \<longrightarrow> bnds s' b = area))"
proof -
  obtain lb s1 where l: "local_bounds (isRenderGroupRoot t) (effects t \<noteq> []) b s = (lb, s1)"
    by (cases "local_bounds (isRenderGroupRoot t) (effects t \<noteq> []) b s")
  let ?area = "addRect_val (bnds s b) r (Some (mats s (worldTransform t)))"
  let ?s2 = "content_phase t b lb s1"
  let ?s' = "getGlobalBoundsRecursive t b s"
  let ?fs = "capable (effects t)"
  let ?fx = "snd (effects_spec ?fs (mats s (renderGroup_worldTransform t))
                        (mats s (rgTransform t)) None ?area)"
  have m1: "mats s1 = mats s"
    using mats_local_bounds [of "isRenderGroupRoot t" "effects t \<noteq> []" b s] l by simp
  have scratch: "lb \<noteq> b \<and> bnds s1 lb = None \<and> bnds s1 b = bnds s b" if "needs_scratch t"
  proof -
    have sc: "lb = fst (getBounds s)" "bnds s1 lb = None"
      "\<forall>a. a \<noteq> lb \<longrightarrow> bnds s1 a = bnds s a"
      using local_bounds_scratch [OF _ l] that by (auto simp add: needs_scratch_def)
    have "lb \<noteq> b" using sc(1) getBounds_fresh [OF assms(3,4)] by simp
    then show ?thesis using sc by simp
  qed
  have plain: "lb = b \<and> s1 = s" if "\<not> needs_scratch t"
    using that l by (simp add: needs_scratch_def local_bounds_plain)
  have b1: "bnds s1 b = bnds s b"
    using scratch plain by (cases "needs_scratch t") simp_all
  have c: "?s2 = addRect b r (Some (worldTransform t)) s1"
    using assms(2) by (simp add: content_phase_def)
  have m2: "mats ?s2 = mats s"
    by (simp add: c addRect_def m1)
  have vb: "bnds ?s2 b = ?area"
    by (simp add: c addRect_def matrix_arg_def b1 m1)
  have vl: "needs_scratch t \<longrightarrow> lb \<noteq> b \<and> bnds ?s2 lb = None"
    using scratch by (simp add: c addRect_def)
  have fin: "bnds ?s' b = (if ?fs = [] then ?area else ?fx)"
  proof (cases "effects t = []")
    case e: True
    have l': "local_bounds (isRenderGroupRoot t) False b s = (lb, s1)"
      using l e by simp
    show ?thesis
    proof (cases "isRenderGroupRoot t")
      case True
      then have "bnds ?s2 lb = None" using vl by (simp add: needs_scratch_def)
      then show ?thesis
        using assms(1) e l' True vb
        by (simp add: visit_unfold Let_def addBounds_def addBounds_val_def)
    next
      case False
      then show ?thesis
        using assms(1) e l' vb by (simp add: visit_unfold Let_def)
    qed
  next
    case ne: False
    then have ns: "needs_scratch t" by (simp add: needs_scratch_def)
    have neq: "lb \<noteq> b" and ln: "bnds ?s2 lb = None" using vl ns by simp_all
    have l': "local_bounds (isRenderGroupRoot t) True b s = (lb, s1)"
      using l ne by simp
    have "(bnds ?s' lb, bnds ?s' b)
        = effects_spec ?fs (mats ?s2 (renderGroup_worldTransform t))
            (mats ?s2 (rgTransform t)) (bnds ?s2 lb) (bnds ?s2 b)"
      using assms(1) ne l' manage_effects_bnds(1) [OF neq assms(5)]
      by (simp add: visit_unfold Let_def)
    then have "bnds ?s' b = ?fx"
      by (simp add: m2 ln vb prod_eq_iff)
    moreover have "?fx = ?area" if "?fs = []"
      using that by (simp add: effects_spec_def addBounds_val_def)
    ultimately show ?thesis by simp
  qed
  have grow: "covers (bnds ?s' b) ?area"
    using fin covers_effects_spec [of ?fs _ _ None ?area] by (simp add: covers_refl)
  have cv1: "covers (bnds ?s' b)
              (Some (frame_aabb (mats s (worldTransform t)) (rect_x r) (rect_y r)
                 (rect_x r + rect_width r) (rect_y r + rect_height r)))"
    using covers_trans [OF grow covers_addRect_val] .
  have cv2: "covers (bnds ?s' b) (bnds s b)"
    by (rule covers_trans [OF grow]) (simp add: addRect_val_def covers_addFrame_val)
  have e0: "effects t = [] \<longrightarrow> bnds ?s' b = ?area"
    using fin by simp
  show ?thesis
    using l c vb vl fin cv1 cv2 e0 visit_override_content [OF assms(2), of v cs b s]
    by (simp add: Let_def)
qed

text \<open>
  Instances: override nodes with an effect without the capability, with an effect that
  sets its accumulator to the unit square (in world space), and a render-group root
  without effects. The override (1, 2, 3, 4) under the translation by (5, 5) is the box
  (6, 7, 9, 11).
\<close>

theorem bounds_area_override_witness:
  "\<not> skipped area_fx_node
   \<and> boundsArea area_fx_node
       = Some \<lparr>rect_x = 1, rect_y = 2, rect_width = 3, rect_height = 4\<rparr>
   \<and> 0 < nxt init_state \<and> 0 \<notin> set (pool init_state)
   \<and> rgTransform area_fx_node \<noteq> tempMatrix
   \<and> effects area_fx_node \<noteq> []
   \<and> bnds (getGlobalBoundsRecursive area_fx_node 0 init_state) 0 = Some (mk_box 6 7 9 11)
   \<and> bnds (getGlobalBoundsRecursive area_set_node 0 init_state) 0 = Some (mk_box (-5) (-5) 9 11)
   \<and> bnds (getGlobalBoundsRecursive area_node 0 init_state) 0 = Some (mk_box 6 7 9 11)
   \<and> getGlobalBoundsRecursive (with_content area_fx_node None []) 0 init_state
       = getGlobalBoundsRecursive area_fx_node 0 init_state"
proof -
  let ?r = "\<lparr>rect_x = 1, rect_y = 2, rect_width = 3, rect_height = 4\<rparr>"
  have pre: "\<not> skipped area_fx_node \<and> boundsArea area_fx_node = Some ?r
      \<and> rgTransform area_fx_node \<noteq> tempMatrix \<and> effects area_fx_node \<noteq> []
      \<and> capable (effects area_fx_node) = []"
    by (simp add: area_fx_node_def skipped_def tempMatrix_def inert_effect_def)
  have pre2: "\<not> skipped area_set_node \<and> boundsArea area_set_node = Some ?r
      \<and> rgTransform area_set_node \<noteq> tempMatrix"
    by (simp add: area_set_node_def skipped_def tempMatrix_def)
  have pre3: "\<not> skipped area_node \<and> boundsArea area_node = Some ?r
      \<and> rgTransform area_node \<noteq> tempMatrix \<and> capable (effects area_node) = []"
    by (simp add: area_node_def skipped_def tempMatrix_def)
  have st: "0 < nxt init_state \<and> 0 \<notin> set (pool init_state)"
    by (simp add: init_state_def)
  have area: "addRect_val (bnds init_state 0) ?r (Some (mats init_state 3)) = Some (mk_box 6 7 9 11)"
    by (simp add: init_state_def) (simp add: value_ops)
  have wt: "worldTransform area_fx_node = 3" "worldTransform area_set_node = 3"
    "worldTransform area_node = 3"
    by (simp_all add: area_fx_node_def area_set_node_def area_node_def)
  have fx: "snd (effects_spec (capable (effects area_set_node))
       (mats init_state (renderGroup_worldTransform area_set_node))
       (mats init_state (rgTransform area_set_node)) None (Some (mk_box 6 7 9 11)))
      = Some (mk_box (-5) (-5) 9 11) \<and> capable (effects area_set_node) \<noteq> []"
    apply (simp add: area_set_node_def unit_square_effect_def effects_spec_def Let_def
        init_state_def)
    apply (simp add: value_ops)
    done
  show ?thesis
    using bounds_area_override [of area_fx_node ?r 0 init_state None "[]"]
      bounds_area_override [of area_set_node ?r 0 init_state None "[]"]
      bounds_area_override [of area_node ?r 0 init_state None "[]"]
      pre pre2 pre3 st area wt fx
    by (simp add: Let_def split: prod.splits)
qed

subsection \<open>Borrowing and returning scratch accumulators\<close>

lemma lifo_append:
  "lifo (xs @ ys) st = (case lifo xs st of None \<Rightarrow> None | Some st' \<Rightarrow> lifo ys st')"
proof (induction xs arbitrary: st)
  case Nil
  show ?case by simp
next
  case (Cons x xs)
  show ?case by (cases x) (simp_all add: Cons split: list.splits)
qed

lemma balanced_Nil [simp]: "balanced []"
  by (simp add: balanced_def)

lemma balanced_append: "balanced xs \<Longrightarrow> balanced ys \<Longrightarrow> balanced (xs @ ys)"
  by (simp add: balanced_def lifo_append)

lemma balanced_bracket: "balanced ev \<Longrightarrow> balanced (Borrow p # ev @ [Return p])"
  by (simp add: balanced_def lifo_append)

lemma borrows_simps [simp]:
  "borrows [] = 0"
  "borrows (xs @ ys) = borrows xs + borrows ys"
  "borrows (Borrow p # xs) = Suc (borrows xs)"
  "borrows (Return p # xs) = borrows xs"
  by (simp_all add: borrows_def)

lemma events_append: "hist s' = hist s @ ev \<Longrightarrow> events s s' = ev"
  by (simp add: events_def)

lemma scratch_visits_unfold:
  "scratch_visits t =
     (if skipped t then 0
      else (if needs_scratch t then 1 else 0)
           + (case boundsArea t of Some r \<Rightarrow> 0
              | None \<Rightarrow> sum_list (map scratch_visits (children t))))"
  by (cases t) (simp add: skipped_def needs_scratch_def split: option.splits)

lemma hist_local_bounds:
  assumes "local_bounds r e b s = (lb, s1)"
  shows "hist s1 = hist s @ (if r \<or> e then [Borrow lb] else [])"
    and "r \<or> e \<Longrightarrow> lb = fst (getBounds s)"
  using assms
  by (auto simp add: local_bounds_def getBounds_def clear_def split: list.splits if_splits)

lemma manage_effects_pool:
  "hist (manage_effects es rgw rgt b lb s) = hist s @ [Return lb]"
  "pool (manage_effects es rgw rgt b lb s) = lb # pool s"
  by (simp_all add: manage_effects_def effects_loop_char bounds_ops copyTo_def invert_def Let_def)

lemma walk_ok_refl: "walk_ok s s 0"
  by (simp add: walk_ok_def)

lemma walk_ok_trans: "walk_ok s s' m \<Longrightarrow> walk_ok s' s'' n \<Longrightarrow> walk_ok s s'' (m + n)"
  unfolding walk_ok_def
  by (metis append.assoc balanced_append borrows_simps(2))

lemma walk_ok_hist: "hist s' = hist s \<Longrightarrow> walk_ok s s' 0"
  by (simp add: walk_ok_def)

lemma children_walk:
  assumes "\<And>c b s. c \<in> set cs \<Longrightarrow> walk_ok s (getGlobalBoundsRecursive c b s) (scratch_visits c)"
  shows "walk_ok s (children_loop cs lb s) (sum_list (map scratch_visits cs))"
  using assms
proof (induction cs arbitrary: s)
  case Nil
  show ?case by (simp add: walk_ok_refl)
next
  case (Cons c cs)
  have 1: "walk_ok s (getGlobalBoundsRecursive c lb s) (scratch_visits c)"
    using Cons.prems by simp
  have 2: "walk_ok (getGlobalBoundsRecursive c lb s)
      (children_loop cs lb (getGlobalBoundsRecursive c lb s)) (sum_list (map scratch_visits cs))"
    using Cons by simp
  show ?case using walk_ok_trans [OF 1 2] by simp
qed

lemma content_walk:
  assumes "\<And>lb s. walk_ok s (children_loop (children t) lb s)
      (sum_list (map scratch_visits (children t)))"
  shows "walk_ok s1 (content_phase t b lb s1)
     (case boundsArea t of Some r \<Rightarrow> 0 | None \<Rightarrow> sum_list (map scratch_visits (children t)))"
proof (cases "boundsArea t")
  case (Some r)
  then show ?thesis by (simp add: content_phase_def walk_ok_hist addRect_def)
next
  case None
  let ?s = "case view t of
      Some viewBounds \<Rightarrow>
        addFrame lb (minX viewBounds) (minY viewBounds)
          (maxX viewBounds) (maxY viewBounds) (Some (rgTransform t)) s1
    | None \<Rightarrow> s1"
  have "walk_ok s1 ?s 0"
    by (rule walk_ok_hist) (simp add: addFrame_def split: option.splits)
  from walk_ok_trans [OF this assms [of ?s lb]] show ?thesis
    using None by (simp add: content_phase_def)
qed

text \<open>The events of one visit, given those of its content step.\<close>

lemma visit_events:
  assumes "\<not> skipped t"
    and "local_bounds (isRenderGroupRoot t) (effects t \<noteq> []) b s = (lb, s1)"
    and "hist (content_phase t b lb s1) = hist s1 @ inner"
  shows "hist (getGlobalBoundsRecursive t b s)
      = hist s @ (if needs_scratch t then Borrow lb # inner @ [Return lb] else inner)"
    and "needs_scratch t \<Longrightarrow> pool (getGlobalBoundsRecursive t b s)
      = lb # pool (content_phase t b lb s1)"
  using assms hist_local_bounds(1) [OF assms(2)]
  by (auto simp add: visit_unfold Let_def needs_scratch_def manage_effects_pool addBounds_def)

lemma visit_walk_step:
  assumes "\<And>lb s. walk_ok s (children_loop (children t) lb s)
      (sum_list (map scratch_visits (children t)))"
  shows "walk_ok s (getGlobalBoundsRecursive t b s) (scratch_visits t)"
proof (cases "skipped t")
  case True
  then show ?thesis by (simp add: visit_unfold scratch_visits_unfold walk_ok_refl)
next
  case False
  obtain lb s1 where l: "local_bounds (isRenderGroupRoot t) (effects t \<noteq> []) b s = (lb, s1)"
    by (cases "local_bounds (isRenderGroupRoot t) (effects t \<noteq> []) b s")
  obtain inner where i: "hist (content_phase t b lb s1) = hist s1 @ inner" "balanced inner"
    "borrows inner = (case boundsArea t of Some r \<Rightarrow> 0
         | None \<Rightarrow> sum_list (map scratch_visits (children t)))"
    using content_walk [OF assms, of s1 b lb] unfolding walk_ok_def by blast
  show ?thesis
    unfolding walk_ok_def
    using visit_events(1) [OF False l i(1)] i(2,3) False
    by (auto simp add: scratch_visits_unfold balanced_bracket)
qed

lemma visit_walk: "walk_ok s (getGlobalBoundsRecursive t b s) (scratch_visits t)"
proof (induction t arbitrary: b s)
  case (Container lvr meas effs rgroot area wt vw rgt rgw chs)
  show ?case
    by (rule visit_walk_step) (simp add: children_walk Container)
qed

text \<open>
  C8. The events a visit adds to the history are balanced in the stack sense (every
  return names the accumulator borrowed last, over the whole recursion below the node),
  and the number of borrows is the number of visited nodes that root a render group or
  have effects. A visit that is not skipped borrows one scratch accumulator of its own,
  from the pool, exactly when the node roots a render group or has effects; the events
  of the node's content lie between that borrow and the return of the same accumulator,
  which is the last thing the visit does.
\<close>

theorem pool_discipline:
  "(let s' = getGlobalBoundsRecursive t b s; ev = events s s'
    in hist s' = hist s @ ev
       \<and> lifo ev st = Some st
       \<and> length (filter is_borrow ev) = scratch_visits t
       \<and> (\<not> skipped t \<longrightarrow>
            (let (lb, s1) = local_bounds (isRenderGroupRoot t) (effects t \<noteq> []) b s;
                 s2 = content_phase t b lb s1;
                 inner = events s1 s2
             in hist s2 = hist s1 @ inner
                \<and> ev = (if needs_scratch t then Borrow lb # inner @ [Return lb] else inner)
                \<and> (needs_scratch t \<longrightarrow> lb = fst (getBounds s) \<and> pool s' = lb # pool s2))))"
proof -
  obtain ev where ev: "hist (getGlobalBoundsRecursive t b s) = hist s @ ev" "balanced ev"
    "borrows ev = scratch_visits t"
    using visit_walk [of s t b] unfolding walk_ok_def by blast
  have e: "events s (getGlobalBoundsRecursive t b s) = ev"
    using ev(1) by (rule events_append)
  have top: "hist (getGlobalBoundsRecursive t b s) = hist s @ ev \<and> lifo ev st = Some st
      \<and> length (filter is_borrow ev) = scratch_visits t"
    using ev by (simp add: balanced_def borrows_def)
  have own: "(let (lb, s1) = local_bounds (isRenderGroupRoot t) (effects t \<noteq> []) b s;
                 s2 = content_phase t b lb s1;
                 inner = events s1 s2
             in hist s2 = hist s1 @ inner
                \<and> ev = (if needs_scratch t then Borrow lb # inner @ [Return lb] else inner)
                \<and> (needs_scratch t \<longrightarrow> lb = fst (getBounds s)
                     \<and> pool (getGlobalBoundsRecursive t b s) = lb # pool s2))"
    if ns: "\<not> skipped t"
  proof -
    obtain lb s1 where l: "local_bounds (isRenderGroupRoot t) (effects t \<noteq> []) b s = (lb, s1)"
      by (cases "local_bounds (isRenderGroupRoot t) (effects t \<noteq> []) b s")
    have "walk_ok s1 (content_phase t b lb s1)
       (case boundsArea t of Some r \<Rightarrow> 0 | None \<Rightarrow> sum_list (map scratch_visits (children t)))"
      by (rule content_walk) (simp add: children_walk visit_walk)
    then obtain inner where i: "hist (content_phase t b lb s1) = hist s1 @ inner"
      unfolding walk_ok_def by blast
    have ei: "events s1 (content_phase t b lb s1) = inner"
      using i by (rule events_append)
    have h: "hist (getGlobalBoundsRecursive t b s)
        = hist s @ (if needs_scratch t then Borrow lb # inner @ [Return lb] else inner)"
      using visit_events(1) [OF ns l i] .
    have evq: "ev = (if needs_scratch t then Borrow lb # inner @ [Return lb] else inner)"
      using h ev(1) by simp
    have p: "needs_scratch t \<longrightarrow> fst (getBounds s) = lb
        \<and> pool (getGlobalBoundsRecursive t b s) = lb # pool (content_phase t b lb s1)"
      using visit_events(2) [OF ns l i] hist_local_bounds(2) [OF l]
      by (auto simp add: needs_scratch_def)
    show ?thesis
      using l i ei evq p by (simp add: Let_def)
  qed
  show ?thesis
    using top own e by (simp add: Let_def)
qed

text \<open>An instance with four scratch accumulators, two of them nested in a third.\<close>

theorem pool_discipline_witness:
  "\<not> skipped nested_scene \<and> scratch_visits nested_scene = 4
   \<and> lifo (events init_state (getGlobalBoundsRecursive nested_scene 0 init_state)) [] = Some []
   \<and> length (filter is_borrow
         (events init_state (getGlobalBoundsRecursive nested_scene 0 init_state))) = 4"
proof -
  have sk: "\<not> skipped nested_scene"
    by (simp add: skipped_def nested_scene_def)
  have n: "scratch_visits nested_scene = 4"
    by (simp add: nested_scene_def leaf_def inert_effect_def pad_effect_def)
  show ?thesis
    using pool_discipline [of nested_scene 0 init_state "[]"] sk n
    by (simp add: Let_def)
qed

text \<open>The history of a small scene, evaluated.\<close>

lemma two_level_events:
  "hist (getGlobalBoundsRecursive two_level 0 init_state)
     = [Borrow 1, Borrow 2, Return 2, Return 1]"
  by (simp add: two_level_def pad_effect_def init_state_def eval_defs bounds_ops Let_def)

subsection \<open>Boxes under affine maps\<close>














lemma contains_box_refl: "contains_box r r"
  by (simp add: contains_box_def)

lemma contains_box_trans: "contains_box p q \<Longrightarrow> contains_box q r \<Longrightarrow> contains_box p r"
  by (auto simp add: contains_box_def)



subsection \<open>The walk computes its value-level description\<close>

























subsection \<open>Containment across render-group and effect boundaries\<close>

lemma proper_acc_simps [simp]:
  "proper_acc None" "proper_acc (Some r) = proper r"
  by (simp_all add: proper_acc_def)









lemma covers_None_iff [simp]: "covers None a \<longleftrightarrow> a = None"
  by (cases a) (simp_all add: covers_def)































subsection \<open>Exactness under translations\<close>







subsection \<open>Example states and effects\<close>





subsection \<open>The result against the true bounds\<close>




end
